theory Spec2Isabelle
  imports Main "HOL-Library.Word"
begin

unbundle bit_operations_syntax

section \<open>The ZMK programming example (zmk/zmk.c)\<close>

text \<open>
  The program maps the SNVS register block and drives it through three macros:
  \<^verbatim>\<open>get_SNVS_reg\<close>, \<^verbatim>\<open>get_value_of_SNVS_reg_field\<close> and
  \<^verbatim>\<open>set_value_of_SNVS_reg\<close>. Every access goes through a plain \<^verbatim>\<open>int*\<close>, so
  the register window is modelled as a store from byte offsets to 32-bit words in which a
  read returns the value last stored. All offsets the program uses are multiples of four
  and pairwise distinct, so one store cell per offset is exact.

  The model starts where \<^verbatim>\<open>open\<close> and \<^verbatim>\<open>mmap\<close> have succeeded (line 168) and
  takes the mapped window as its input. The value main returns is kept as an \<open>int\<close>:
  \<open>- 1\<close> reaches the shell as a non-zero exit status, \<open>0\<close> as success.
\<close>

subsection \<open>Macros: constants\<close>

type_synonym u32 = "32 word"
type_synonym u8 = "8 word"

definition POR :: int where "POR = 0x1000"
definition SYSTEM_RESET :: int where "SYSTEM_RESET = 0x2000"
definition RESET :: int where "RESET = POR"

definition SNVS_HPLR :: nat where "SNVS_HPLR = 0x0"
definition ZMK_WSL_MASK :: u32 where "ZMK_WSL_MASK = 0x1"
definition ZMK_WSL_OFFSET :: nat where "ZMK_WSL_OFFSET = 0"
definition ZMK_RSL_MASK :: u32 where "ZMK_RSL_MASK = 0x2"
definition ZMK_RSL_OFFSET :: nat where "ZMK_RSL_OFFSET = 1"
definition MKS_SL_MASK :: u32 where "MKS_SL_MASK = 0x0200"
definition MKS_SL_OFFSET :: nat where "MKS_SL_OFFSET = 9"

definition SNVS_HPCOMR :: nat where "SNVS_HPCOMR = 0x4"
definition MKS_EN_MASK :: u32 where "MKS_EN_MASK = 0x00002000"

definition SNVS_HPSR :: nat where "SNVS_HPSR = 0x14"
definition SSM_ST_MASK :: u32 where "SSM_ST_MASK = 0x00000F00"
definition SSM_ST_OFFSET :: nat where "SSM_ST_OFFSET = 8"

definition SNVS_LPLR :: nat where "SNVS_LPLR = 0x34"
definition ZMK_WHL_MASK :: u32 where "ZMK_WHL_MASK = 0x1"
definition ZMK_WHL_OFFSET :: nat where "ZMK_WHL_OFFSET = 0"
definition ZMK_RHL_MASK :: u32 where "ZMK_RHL_MASK = 0x2"
definition ZMK_RHL_OFFSET :: nat where "ZMK_RHL_OFFSET = 1"
definition MKS_HL_MASK :: u32 where "MKS_HL_MASK = 0x200"
definition MKS_HL_OFFSET :: nat where "MKS_HL_OFFSET = 9"

definition SNVS_LPMKCR :: nat where "SNVS_LPMKCR = 0x3C"
definition ZMK_HWP_MASK :: u32 where "ZMK_HWP_MASK = 0x4"
definition ZMK_HWP_OFFSET :: nat where "ZMK_HWP_OFFSET = 2"
definition ZMK_VAL_MASK :: u32 where "ZMK_VAL_MASK = 0x8"
definition MASTER_KEY_SEL_VALUE :: u32 where "MASTER_KEY_SEL_VALUE = 0x2"
definition ZMK_ECC_EN :: u32 where "ZMK_ECC_EN = 0x10"

definition SNVS_LPSR :: nat where "SNVS_LPSR = 0x4c"
definition PGD_MASK :: u32 where "PGD_MASK = 0x8"

definition SNVS_LPPGDR :: nat where "SNVS_LPPGDR = 0x64"
definition POWER_GLITCH_VALUE :: u32 where "POWER_GLITCH_VALUE = 0x41736166"

definition SNVS_LPZMKRn :: nat where "SNVS_LPZMKRn = 0x6c"
definition ZMK_VALUE :: u32 where "ZMK_VALUE = 0x11223344"

definition TIMEOUT_MAX_VAL :: int where "TIMEOUT_MAX_VAL = 0x1000"

subsection \<open>Macros: register access\<close>

type_synonym reg_window = "nat \<Rightarrow> u32"

text \<open>\<^verbatim>\<open>*get_SNVS_reg(virt_addr, add_offset)\<close>: the word at the byte offset.\<close>

definition get_SNVS_reg :: "reg_window \<Rightarrow> nat \<Rightarrow> u32" where
  "get_SNVS_reg virt_addr add_offset = virt_addr add_offset"

text \<open>
  \<^verbatim>\<open>((*(int*)(virt_addr+add_offset)) & field) >> offset\<close>. Every mask the program
  passes has bit 31 clear, so the masked \<^verbatim>\<open>int\<close> is non-negative and the C shift is
  the logical one.
\<close>

definition get_value_of_SNVS_reg_field :: "reg_window \<Rightarrow> nat \<Rightarrow> u32 \<Rightarrow> nat \<Rightarrow> u32" where
  "get_value_of_SNVS_reg_field virt_addr add_offset field offset =
     drop_bit offset (get_SNVS_reg virt_addr add_offset AND field)"

text \<open>\<^verbatim>\<open>*p = (*p | (unsigned int)value)\<close>: read, OR, store back.\<close>

definition set_value_of_SNVS_reg :: "reg_window \<Rightarrow> nat \<Rightarrow> u32 \<Rightarrow> reg_window" where
  "set_value_of_SNVS_reg virt_addr add_offset v =
     virt_addr(add_offset := get_SNVS_reg virt_addr add_offset OR v)"

subsection \<open>The state of a run\<close>

text \<open>
  Of the console output only the lines that report a decision are kept, one constructor
  per \<^verbatim>\<open>printf\<close>, named by what the line says. The lines that announce a step or
  print a register value read the window and change nothing.
\<close>

datatype diag =
    SSM_NonSecure_mode
  | SSM_Trusted_mode
  | SSM_Secure_mode
  | SSM_undefined_mode
  | SSM_not_functional
  | ZMK_HWP_not_set
  | ZMK_HWP_is_set
  | Soft_locks_not_set
  | Soft_lock_is_set
  | Hard_locks_not_set
  | Hard_lock_is_set
  | ZMK_value_matches u32
  | ZMK_value_not_matching u32
  | Zeroize_PASSED
  | Zeroize_FAILED u32

text \<open>
  \<open>mem\<close> is the mapped window. \<open>wlog\<close> is a ghost record of the stores made through
  \<^verbatim>\<open>set_value_of_SNVS_reg\<close>, in order, each with the offset and the bits passed.
  \<open>out\<close> is the console. The three lines with an argument print the key register.
\<close>

record run_state =
  mem :: reg_window
  wlog :: "(nat \<times> u32) list"
  out :: "diag list"

definition start :: "reg_window \<Rightarrow> run_state" where
  "start m = \<lparr>mem = m, wlog = [], out = []\<rparr>"

definition store :: "nat \<Rightarrow> u32 \<Rightarrow> run_state \<Rightarrow> run_state" where
  "store add_offset v st =
     st\<lparr>mem := set_value_of_SNVS_reg (mem st) add_offset v,
        wlog := wlog st @ [(add_offset, v)]\<rparr>"

definition printf :: "diag \<Rightarrow> run_state \<Rightarrow> run_state" where
  "printf d st = st\<lparr>out := out st @ [d]\<rparr>"

subsection \<open>Fields read by main, under the names of its local variables\<close>

definition SSM_state :: "reg_window \<Rightarrow> u8" where
  "SSM_state m = ucast (get_value_of_SNVS_reg_field m SNVS_HPSR SSM_ST_MASK SSM_ST_OFFSET)"

definition ZMK_HWP_state :: "reg_window \<Rightarrow> u8" where
  "ZMK_HWP_state m =
     ucast (get_value_of_SNVS_reg_field m SNVS_LPMKCR ZMK_HWP_MASK ZMK_HWP_OFFSET)"

definition ZMK_WSL_state :: "reg_window \<Rightarrow> u8" where
  "ZMK_WSL_state m = ucast (get_value_of_SNVS_reg_field m SNVS_HPLR ZMK_WSL_MASK ZMK_WSL_OFFSET)"

definition ZMK_RSL_state :: "reg_window \<Rightarrow> u8" where
  "ZMK_RSL_state m = ucast (get_value_of_SNVS_reg_field m SNVS_HPLR ZMK_RSL_MASK ZMK_RSL_OFFSET)"

definition MKS_SL_state :: "reg_window \<Rightarrow> u8" where
  "MKS_SL_state m = ucast (get_value_of_SNVS_reg_field m SNVS_HPLR MKS_SL_MASK MKS_SL_OFFSET)"

definition MKS_HL_state :: "reg_window \<Rightarrow> u8" where
  "MKS_HL_state m = ucast (get_value_of_SNVS_reg_field m SNVS_LPLR MKS_HL_MASK MKS_HL_OFFSET)"

definition ZMK_RHL_state :: "reg_window \<Rightarrow> u8" where
  "ZMK_RHL_state m = ucast (get_value_of_SNVS_reg_field m SNVS_LPLR ZMK_RHL_MASK ZMK_RHL_OFFSET)"

definition ZMK_WHL_state :: "reg_window \<Rightarrow> u8" where
  "ZMK_WHL_state m = ucast (get_value_of_SNVS_reg_field m SNVS_LPLR ZMK_WHL_MASK ZMK_WHL_OFFSET)"

text \<open>
  The hardware programming mode bit and the six lock fields all read 0: the conjunction of
  the tests of lines 217, 235 and 239.
\<close>

definition all_clear :: "reg_window \<Rightarrow> bool" where
  "all_clear m =
     (ZMK_HWP_state m = 0 \<and> ZMK_WSL_state m = 0 \<and> ZMK_RSL_state m = 0 \<and> MKS_SL_state m = 0
      \<and> ZMK_WHL_state m = 0 \<and> ZMK_RHL_state m = 0 \<and> MKS_HL_state m = 0)"

subsection \<open>The busy-wait of lines 281 to 283\<close>

text \<open>
  \<^verbatim>\<open>volatile int i = 0; for (i=0; i<TIMEOUT_MAX_VAL; i++){}\<close>. The counter stays
  below \<open>2 ^ 31\<close>, so it is an \<open>int\<close>. The second argument counts the iterations made;
  the third is the state the empty body is handed and hands back.
\<close>

function busy_wait :: "int \<Rightarrow> nat \<Rightarrow> 's \<Rightarrow> int \<times> nat \<times> 's" where
  "busy_wait i n st =
     (if i < TIMEOUT_MAX_VAL then busy_wait (i + 1) (Suc n) st else (i, n, st))"
  by pat_completeness auto
termination
  by (relation "measure (\<lambda>(i, n, st). nat (TIMEOUT_MAX_VAL - i))") auto

declare busy_wait.simps [simp del]

subsection \<open>main, block by block\<close>

text \<open>
  main is one chain of nested conditionals whose else branches return. Each block is a
  function of the state; a block that can leave main yields \<open>Inl\<close> with the exit
  status and the state left behind, and \<open>Inr\<close> with the state handed to the next
  block otherwise.
\<close>

text \<open>The \<^verbatim>\<open>switch\<close> of lines 186 to 199: the line printed, or the default case.\<close>

definition ssm_switch :: "u8 \<Rightarrow> diag option" where
  "ssm_switch v =
     (if v = 0xb then Some SSM_NonSecure_mode
      else if v = 0xd then Some SSM_Trusted_mode
      else if v = 0xf then Some SSM_Secure_mode
      else None)"

text \<open>A.1, lines 183 to 199 and 335 to 338.\<close>

definition check_SSM :: "run_state \<Rightarrow> (int \<times> run_state) + run_state" where
  "check_SSM st =
     (if SSM_state (mem st) \<ge> 0xB
      then (case ssm_switch (SSM_state (mem st)) of
              Some d \<Rightarrow> Inr (printf d st)
            | None \<Rightarrow> Inl (- 1, printf SSM_undefined_mode st))
      else Inl (- 1, printf SSM_not_functional st))"

text \<open>A.2 and A.3, lines 201 to 211.\<close>

definition condition_glitch :: "run_state \<Rightarrow> run_state" where
  "condition_glitch st = store SNVS_LPSR PGD_MASK (store SNVS_LPPGDR POWER_GLITCH_VALUE st)"

text \<open>B.1, lines 213 to 219 and 329 to 333.\<close>

definition check_ZMK_HWP :: "run_state \<Rightarrow> (int \<times> run_state) + run_state" where
  "check_ZMK_HWP st =
     (if ZMK_HWP_state (mem st) = 0x0
      then Inr (printf ZMK_HWP_not_set st)
      else Inl (- 1, printf ZMK_HWP_is_set st))"

text \<open>B.2, lines 221 to 245 and 317 to 327: the six fields are read first, then tested.\<close>

definition check_locks :: "run_state \<Rightarrow> (int \<times> run_state) + run_state" where
  "check_locks st =
     (let wsl = ZMK_WSL_state (mem st);
          rsl = ZMK_RSL_state (mem st);
          sl = MKS_SL_state (mem st);
          hl = MKS_HL_state (mem st);
          rhl = ZMK_RHL_state (mem st);
          whl = ZMK_WHL_state (mem st)
      in if wsl = 0x0 \<and> rsl = 0x0 \<and> sl = 0x0
         then (if whl = 0x0 \<and> rhl = 0x0 \<and> hl = 0x0
               then Inr (printf Hard_locks_not_set (printf Soft_locks_not_set st))
               else Inl (- 1, printf Hard_lock_is_set (printf Soft_locks_not_set st)))
         else Inl (- 1, printf Soft_lock_is_set st))"

text \<open>B.3, lines 246 to 250.\<close>

definition write_key :: "run_state \<Rightarrow> run_state" where
  "write_key st = store SNVS_LPZMKRn ZMK_VALUE st"

text \<open>
  B.4, lines 252 to 254 and 313 to 315. The else branch has no \<^verbatim>\<open>return\<close>: control
  falls out of every enclosing block to \<^verbatim>\<open>return 0\<close> at line 340.
\<close>

definition verify_key :: "run_state \<Rightarrow> (int \<times> run_state) + run_state" where
  "verify_key st =
     (if get_SNVS_reg (mem st) SNVS_LPZMKRn = ZMK_VALUE
      then Inr (printf (ZMK_value_matches (get_SNVS_reg (mem st) SNVS_LPZMKRn)) st)
      else Inl (0, printf (ZMK_value_not_matching (get_SNVS_reg (mem st) SNVS_LPZMKRn)) st))"

text \<open>
  B.5 to B.8, lines 256 to 278. \<open>reset\<close> stands for the macro \<^verbatim>\<open>RESET\<close>, which the
  source compares with \<^verbatim>\<open>POR\<close> here and at line 304.
\<close>

definition lock_key :: "int \<Rightarrow> run_state \<Rightarrow> run_state" where
  "lock_key reset st0 =
     (let st = store SNVS_LPMKCR ZMK_VAL_MASK st0;
          st = store SNVS_LPMKCR ZMK_ECC_EN st
      in if reset = POR
         then store SNVS_LPLR ZMK_WHL_MASK (store SNVS_LPLR ZMK_RHL_MASK st)
         else store SNVS_HPLR ZMK_WSL_MASK (store SNVS_HPLR ZMK_RSL_MASK st))"

text \<open>Lines 285 to 291.\<close>

definition check_zeroized :: "run_state \<Rightarrow> run_state" where
  "check_zeroized st =
     (if get_SNVS_reg (mem st) SNVS_LPZMKRn = 0x0
      then printf Zeroize_PASSED st
      else printf (Zeroize_FAILED (get_SNVS_reg (mem st) SNVS_LPZMKRn)) st)"

text \<open>B.9 and B.10, lines 293 to 311.\<close>

definition select_master_key :: "int \<Rightarrow> run_state \<Rightarrow> run_state" where
  "select_master_key reset st0 =
     (let st = store SNVS_LPMKCR MASTER_KEY_SEL_VALUE st0;
          st = store SNVS_HPCOMR MKS_EN_MASK st
      in if reset = POR
         then store SNVS_LPLR MKS_HL_MASK st
         else store SNVS_HPLR MKS_SL_MASK st)"

text \<open>The run up to the read-back of line 253: the key has just been stored.\<close>

definition run_to_verify :: "reg_window \<Rightarrow> (int \<times> run_state) + run_state" where
  "run_to_verify m =
     (case check_SSM (start m) of
        Inl r \<Rightarrow> Inl r
      | Inr st \<Rightarrow>
          (case check_ZMK_HWP (condition_glitch st) of
             Inl r \<Rightarrow> Inl r
           | Inr st \<Rightarrow>
               (case check_locks st of
                  Inl r \<Rightarrow> Inl r
                | Inr st \<Rightarrow> Inr (write_key st))))"

text \<open>
  The state \<open>run_to_verify\<close> reaches when every check lets the run through and the
  mode line printed was \<open>d\<close>.
\<close>

definition at_verify :: "diag \<Rightarrow> reg_window \<Rightarrow> run_state" where
  "at_verify d m =
     write_key (printf Hard_locks_not_set (printf Soft_locks_not_set
       (printf ZMK_HWP_not_set (condition_glitch (printf d (start m))))))"

text \<open>The run up to the busy-wait of line 281: the key locks have just been set.\<close>

definition run_to_wait :: "int \<Rightarrow> reg_window \<Rightarrow> (int \<times> run_state) + run_state" where
  "run_to_wait reset m =
     (case run_to_verify m of
        Inl r \<Rightarrow> Inl r
      | Inr st \<Rightarrow>
          (case verify_key st of
             Inl r \<Rightarrow> Inl r
           | Inr st \<Rightarrow> Inr (lock_key reset st)))"

text \<open>The whole of main from line 183 on, for a window as mapped at line 162.\<close>

definition zmk_run :: "int \<Rightarrow> reg_window \<Rightarrow> int \<times> run_state" where
  "zmk_run reset m =
     (case run_to_wait reset m of
        Inl r \<Rightarrow> r
      | Inr st \<Rightarrow>
          (let st = snd (snd (busy_wait 0 0 st))
           in (0, select_master_key reset (check_zeroized st))))"

text \<open>
  main as compiled, with \<^verbatim>\<open>RESET\<close> defined as \<^verbatim>\<open>POR\<close>. What is proved of
  \<open>zmk_run reset\<close> for every \<open>reset\<close> holds of main, and of the program built with
  \<^verbatim>\<open>RESET\<close> defined as \<^verbatim>\<open>SYSTEM_RESET\<close>.
\<close>

definition main :: "reg_window \<Rightarrow> int \<times> run_state" where
  "main m = zmk_run RESET m"

subsection \<open>The store log against the window\<close>

text \<open>Replaying a list of stores on a window.\<close>

definition replay :: "(nat \<times> u32) list \<Rightarrow> reg_window \<Rightarrow> reg_window" where
  "replay ws m = foldl (\<lambda>r (a, v). set_value_of_SNVS_reg r a v) m ws"

text \<open>The window of a state is the initial window with the logged stores replayed.\<close>

definition consistent :: "reg_window \<Rightarrow> run_state \<Rightarrow> bool" where
  "consistent m st = (mem st = replay (wlog st) m)"

text \<open>The state a block ends in, whether it left main or not.\<close>

definition state_of :: "(int \<times> run_state) + run_state \<Rightarrow> run_state" where
  "state_of r = (case r of Inl (e, st) \<Rightarrow> st | Inr st \<Rightarrow> st)"

subsection \<open>Windows used as examples\<close>

text \<open>Trusted mode, nothing locked, key register empty.\<close>

definition win_clear :: reg_window where
  "win_clear = (\<lambda>_. 0)(SNVS_HPSR := 0xD00)"

text \<open>Trusted mode, nothing locked, a key already in the register.\<close>

definition win_old_key :: reg_window where
  "win_old_key = (\<lambda>_. 0)(SNVS_HPSR := 0xD00, SNVS_LPZMKRn := 0xFFFFFFFF)"

text \<open>Security state field 0xC: above the threshold, none of the three modes.\<close>

definition win_ssm_c :: reg_window where
  "win_ssm_c = (\<lambda>_. 0)(SNVS_HPSR := 0xC00)"

text \<open>Security state field 0x9 (check state), a key in the register.\<close>

definition win_check_state :: reg_window where
  "win_check_state = (\<lambda>_. 0)(SNVS_HPSR := 0x900, SNVS_LPZMKRn := 0x55)"

text \<open>Secure mode with the read hard lock set, a key in the register.\<close>

definition win_read_locked :: reg_window where
  "win_read_locked = (\<lambda>_. 0)(SNVS_HPSR := 0xF00, SNVS_LPLR := 0x2, SNVS_LPZMKRn := 0x55)"

section \<open>Facts about the blocks\<close>

subsection \<open>The busy-wait\<close>

lemma busy_wait_from:
  "i \<le> TIMEOUT_MAX_VAL \<Longrightarrow>
   busy_wait i n st = (TIMEOUT_MAX_VAL, n + nat (TIMEOUT_MAX_VAL - i), st)"
proof (induction i n st rule: busy_wait.induct)
  case (1 i n st)
  show ?case
  proof (cases "i < TIMEOUT_MAX_VAL")
    case True
    then have "busy_wait (i + 1) (Suc n) st =
        (TIMEOUT_MAX_VAL, Suc n + nat (TIMEOUT_MAX_VAL - (i + 1)), st)"
      using "1.IH" by simp
    moreover have "Suc n + nat (TIMEOUT_MAX_VAL - (i + 1)) = n + nat (TIMEOUT_MAX_VAL - i)"
      using True by simp
    ultimately show ?thesis
      using True by (subst busy_wait.simps) simp
  next
    case False
    with "1.prems" have "i = TIMEOUT_MAX_VAL" by simp
    then show ?thesis by (subst busy_wait.simps) simp
  qed
qed

lemma busy_wait_state: "snd (snd (busy_wait 0 0 st)) = st"
  by (simp add: busy_wait_from TIMEOUT_MAX_VAL_def)

subsection \<open>Stores, console lines and field reads\<close>

lemmas reg_offsets =
  SNVS_HPLR_def SNVS_HPCOMR_def SNVS_HPSR_def SNVS_LPLR_def SNVS_LPMKCR_def
  SNVS_LPSR_def SNVS_LPPGDR_def SNVS_LPZMKRn_def

lemmas mask_defs =
  ZMK_WSL_MASK_def ZMK_WSL_OFFSET_def ZMK_RSL_MASK_def ZMK_RSL_OFFSET_def MKS_SL_MASK_def
  MKS_SL_OFFSET_def MKS_EN_MASK_def SSM_ST_MASK_def SSM_ST_OFFSET_def ZMK_WHL_MASK_def
  ZMK_WHL_OFFSET_def ZMK_RHL_MASK_def ZMK_RHL_OFFSET_def MKS_HL_MASK_def MKS_HL_OFFSET_def
  ZMK_HWP_MASK_def ZMK_HWP_OFFSET_def ZMK_VAL_MASK_def MASTER_KEY_SEL_VALUE_def
  ZMK_ECC_EN_def PGD_MASK_def POWER_GLITCH_VALUE_def ZMK_VALUE_def

lemmas field_defs =
  SSM_state_def ZMK_HWP_state_def ZMK_WSL_state_def ZMK_RSL_state_def MKS_SL_state_def
  MKS_HL_state_def ZMK_RHL_state_def ZMK_WHL_state_def get_value_of_SNVS_reg_field_def

lemma store_sel [simp]:
  "mem (store a v st) = (mem st)(a := mem st a OR v)"
  "wlog (store a v st) = wlog st @ [(a, v)]"
  "out (store a v st) = out st"
  by (simp_all add: store_def set_value_of_SNVS_reg_def get_SNVS_reg_def)

lemma printf_sel [simp]:
  "mem (printf d st) = mem st"
  "wlog (printf d st) = wlog st"
  "out (printf d st) = out st @ [d]"
  by (simp_all add: printf_def)

lemma start_sel [simp]:
  "mem (start m) = m" "wlog (start m) = []" "out (start m) = []"
  by (simp_all add: start_def)

lemma state_of_simps [simp]: "state_of (Inl (e, st)) = st" "state_of (Inr st) = st"
  by (simp_all add: state_of_def)

lemma get_SNVS_reg_upd [simp]:
  "get_SNVS_reg (m(a := v)) b = (if b = a then v else get_SNVS_reg m b)"
  by (simp add: get_SNVS_reg_def)

text \<open>A store to one register leaves the fields of the others as they were.\<close>

lemma state_frame [simp]:
  "a \<noteq> SNVS_HPSR \<Longrightarrow> SSM_state (m(a := v)) = SSM_state m"
  "a \<noteq> SNVS_LPMKCR \<Longrightarrow> ZMK_HWP_state (m(a := v)) = ZMK_HWP_state m"
  "a \<noteq> SNVS_HPLR \<Longrightarrow> ZMK_WSL_state (m(a := v)) = ZMK_WSL_state m"
  "a \<noteq> SNVS_HPLR \<Longrightarrow> ZMK_RSL_state (m(a := v)) = ZMK_RSL_state m"
  "a \<noteq> SNVS_HPLR \<Longrightarrow> MKS_SL_state (m(a := v)) = MKS_SL_state m"
  "a \<noteq> SNVS_LPLR \<Longrightarrow> MKS_HL_state (m(a := v)) = MKS_HL_state m"
  "a \<noteq> SNVS_LPLR \<Longrightarrow> ZMK_RHL_state (m(a := v)) = ZMK_RHL_state m"
  "a \<noteq> SNVS_LPLR \<Longrightarrow> ZMK_WHL_state (m(a := v)) = ZMK_WHL_state m"
  by (simp_all add: field_defs)

lemma or_absorb_iff: "(x OR k = k) \<longleftrightarrow> (x AND NOT k = 0)" for x k :: "'a::len word"
  by (auto simp: bit_eq_iff bit_simps)

lemma or_and_same: "(x OR k) AND k = k" for x k :: "'a::len word"
  by (auto simp: bit_eq_iff bit_simps)

subsection \<open>The security state field\<close>

lemma SSM_state_le: "SSM_state m \<le> 0xF"
proof -
  have "SSM_state m = SSM_state m AND 0xF"
    unfolding SSM_state_def get_value_of_SNVS_reg_field_def SSM_ST_MASK_def SSM_ST_OFFSET_def
    by (rule bit_word_eqI) (auto simp: bit_simps)
  then have "SSM_state m = 0xF AND SSM_state m" by (simp add: and.commute)
  moreover have "0xF AND SSM_state m \<le> 0xF" by (rule word_and_le2)
  ultimately show ?thesis by simp
qed

lemma ssm_switch_Some: "ssm_switch v = Some d \<Longrightarrow> 0xB \<le> v"
  by (auto simp: ssm_switch_def split: if_splits)

lemma ssm_switch_iff: "ssm_switch v \<noteq> None \<longleftrightarrow> v \<in> {0xB, 0xD, 0xF}"
  by (auto simp: ssm_switch_def)

lemma ssm_switch_eq:
  "v \<in> {0xB, 0xD, 0xF} \<Longrightarrow>
   ssm_switch v = Some (if v = 0xB then SSM_NonSecure_mode
                        else if v = 0xD then SSM_Trusted_mode else SSM_Secure_mode)"
  by (auto simp: ssm_switch_def)

lemma ssm_switch_invalid:
  "v \<notin> {0xB, 0xD, 0xF} \<Longrightarrow> ssm_switch v = None"
  by (auto simp: ssm_switch_def)

lemma check_SSM_below:
  "SSM_state (mem st) < 0xB \<Longrightarrow> check_SSM st = Inl (- 1, printf SSM_not_functional st)"
proof -
  assume "SSM_state (mem st) < 0xB"
  then have "\<not> 0xB \<le> SSM_state (mem st)" by (simp add: not_le)
  then show ?thesis by (simp add: check_SSM_def)
qed

lemma check_SSM_accept:
  "ssm_switch (SSM_state (mem st)) = Some d \<Longrightarrow> check_SSM st = Inr (printf d st)"
  by (simp add: check_SSM_def ssm_switch_Some)

lemma check_SSM_reject:
  "ssm_switch (SSM_state (mem st)) = None \<Longrightarrow>
   check_SSM st =
     Inl (- 1, printf (if 0xB \<le> SSM_state (mem st) then SSM_undefined_mode
                       else SSM_not_functional) st)"
  by (simp add: check_SSM_def)

subsection \<open>What each block stores and prints\<close>

lemma condition_glitch_sel [simp]:
  "wlog (condition_glitch st) =
     wlog st @ [(SNVS_LPPGDR, POWER_GLITCH_VALUE), (SNVS_LPSR, PGD_MASK)]"
  "out (condition_glitch st) = out st"
  "ZMK_HWP_state (mem (condition_glitch st)) = ZMK_HWP_state (mem st)"
  "ZMK_WSL_state (mem (condition_glitch st)) = ZMK_WSL_state (mem st)"
  "ZMK_RSL_state (mem (condition_glitch st)) = ZMK_RSL_state (mem st)"
  "MKS_SL_state (mem (condition_glitch st)) = MKS_SL_state (mem st)"
  "MKS_HL_state (mem (condition_glitch st)) = MKS_HL_state (mem st)"
  "ZMK_RHL_state (mem (condition_glitch st)) = ZMK_RHL_state (mem st)"
  "ZMK_WHL_state (mem (condition_glitch st)) = ZMK_WHL_state (mem st)"
  "get_SNVS_reg (mem (condition_glitch st)) SNVS_LPZMKRn = get_SNVS_reg (mem st) SNVS_LPZMKRn"
  by (simp_all add: condition_glitch_def reg_offsets)

lemma at_verify_sel:
  "wlog (at_verify d m) =
     [(SNVS_LPPGDR, POWER_GLITCH_VALUE), (SNVS_LPSR, PGD_MASK), (SNVS_LPZMKRn, ZMK_VALUE)]"
  "out (at_verify d m) = [d, ZMK_HWP_not_set, Soft_locks_not_set, Hard_locks_not_set]"
  "get_SNVS_reg (mem (at_verify d m)) SNVS_LPZMKRn = get_SNVS_reg m SNVS_LPZMKRn OR ZMK_VALUE"
  "get_SNVS_reg (mem (at_verify d m)) SNVS_HPLR = get_SNVS_reg m SNVS_HPLR"
  "get_SNVS_reg (mem (at_verify d m)) SNVS_LPLR = get_SNVS_reg m SNVS_LPLR"
  "get_SNVS_reg (mem (at_verify d m)) SNVS_HPCOMR = get_SNVS_reg m SNVS_HPCOMR"
  "get_SNVS_reg (mem (at_verify d m)) SNVS_LPMKCR = get_SNVS_reg m SNVS_LPMKCR"
  by (simp_all add: at_verify_def write_key_def condition_glitch_def reg_offsets
      get_SNVS_reg_def)

lemma lock_key_sel [simp]:
  "wlog (lock_key reset st) = wlog st @
     [(SNVS_LPMKCR, ZMK_VAL_MASK), (SNVS_LPMKCR, ZMK_ECC_EN)] @
     (if reset = POR then [(SNVS_LPLR, ZMK_RHL_MASK), (SNVS_LPLR, ZMK_WHL_MASK)]
      else [(SNVS_HPLR, ZMK_RSL_MASK), (SNVS_HPLR, ZMK_WSL_MASK)])"
  "out (lock_key reset st) = out st"
  "get_SNVS_reg (mem (lock_key reset st)) SNVS_LPZMKRn = get_SNVS_reg (mem st) SNVS_LPZMKRn"
  by (simp_all add: lock_key_def Let_def reg_offsets get_SNVS_reg_def)

lemma check_zeroized_sel [simp]:
  "wlog (check_zeroized st) = wlog st"
  "mem (check_zeroized st) = mem st"
  "out (check_zeroized st) = out st @
     [if get_SNVS_reg (mem st) SNVS_LPZMKRn = 0 then Zeroize_PASSED
      else Zeroize_FAILED (get_SNVS_reg (mem st) SNVS_LPZMKRn)]"
  by (simp_all add: check_zeroized_def)

lemma select_master_key_sel [simp]:
  "wlog (select_master_key reset st) = wlog st @
     [(SNVS_LPMKCR, MASTER_KEY_SEL_VALUE), (SNVS_HPCOMR, MKS_EN_MASK),
      if reset = POR then (SNVS_LPLR, MKS_HL_MASK) else (SNVS_HPLR, MKS_SL_MASK)]"
  "out (select_master_key reset st) = out st"
  "get_SNVS_reg (mem (select_master_key reset st)) SNVS_LPZMKRn =
     get_SNVS_reg (mem st) SNVS_LPZMKRn"
  by (simp_all add: select_master_key_def Let_def reg_offsets get_SNVS_reg_def)

lemma select_master_key_mem:
  "get_SNVS_reg (mem (select_master_key reset st)) SNVS_LPMKCR =
     get_SNVS_reg (mem st) SNVS_LPMKCR OR MASTER_KEY_SEL_VALUE"
  "get_SNVS_reg (mem (select_master_key reset st)) SNVS_HPCOMR =
     get_SNVS_reg (mem st) SNVS_HPCOMR OR MKS_EN_MASK"
  by (simp_all add: select_master_key_def Let_def reg_offsets get_SNVS_reg_def)

lemma verify_key_cases:
  "verify_key st =
     (if get_SNVS_reg (mem st) SNVS_LPZMKRn = ZMK_VALUE
      then Inr (printf (ZMK_value_matches ZMK_VALUE) st)
      else Inl (0, printf (ZMK_value_not_matching (get_SNVS_reg (mem st) SNVS_LPZMKRn)) st))"
  by (simp add: verify_key_def)

subsection \<open>The paths of a run\<close>

lemma run_to_verify_clear:
  assumes "ssm_switch (SSM_state m) = Some d" "all_clear m"
  shows "run_to_verify m = Inr (at_verify d m)"
  using assms
  by (simp add: run_to_verify_def check_SSM_accept check_ZMK_HWP_def check_locks_def
      all_clear_def at_verify_def)

lemma run_to_verify_locked:
  assumes "ssm_switch (SSM_state m) = Some d" "\<not> all_clear m"
  shows "\<exists>st. run_to_verify m = Inl (- 1, st)
           \<and> last (out st) \<in> {ZMK_HWP_is_set, Soft_lock_is_set, Hard_lock_is_set}
           \<and> wlog st = [(SNVS_LPPGDR, POWER_GLITCH_VALUE), (SNVS_LPSR, PGD_MASK)]
           \<and> get_SNVS_reg (mem st) SNVS_LPZMKRn = get_SNVS_reg m SNVS_LPZMKRn"
  using assms
  by (auto simp: run_to_verify_def check_SSM_accept check_ZMK_HWP_def check_locks_def
      all_clear_def)

lemma run_to_verify_Inr:
  assumes "run_to_verify m = Inr st"
  shows "\<exists>d. ssm_switch (SSM_state m) = Some d \<and> all_clear m \<and> st = at_verify d m"
proof (cases "ssm_switch (SSM_state m)")
  case None
  then show ?thesis using assms by (simp add: run_to_verify_def check_SSM_reject)
next
  case (Some d)
  show ?thesis
  proof (cases "all_clear m")
    case True
    then show ?thesis using assms Some by (simp add: run_to_verify_clear)
  next
    case False
    then show ?thesis using assms Some run_to_verify_locked [OF Some False] by auto
  qed
qed

lemma zmk_run_stopped:
  assumes "run_to_verify m = Inl r"
  shows "zmk_run reset m = r"
  using assms by (simp add: zmk_run_def run_to_wait_def)

lemma zmk_run_from_verify:
  assumes "run_to_verify m = Inr st"
  shows "zmk_run reset m =
     (if get_SNVS_reg (mem st) SNVS_LPZMKRn = ZMK_VALUE
      then (0, select_master_key reset (check_zeroized
                 (lock_key reset (printf (ZMK_value_matches ZMK_VALUE) st))))
      else (0, printf (ZMK_value_not_matching (get_SNVS_reg (mem st) SNVS_LPZMKRn)) st))"
  using assms by (simp add: zmk_run_def run_to_wait_def verify_key_cases busy_wait_state)

lemma zmk_run_rejected:
  assumes "ssm_switch (SSM_state m) = None"
  shows "zmk_run reset m =
     (- 1, printf (if 0xB \<le> SSM_state m then SSM_undefined_mode
                   else SSM_not_functional) (start m))"
  using assms by (simp add: zmk_run_def run_to_wait_def run_to_verify_def check_SSM_reject)

lemma zmk_run_accepted_wlog:
  assumes "ssm_switch (SSM_state m) = Some d"
  shows "\<exists>ws. wlog (snd (zmk_run reset m)) =
           (SNVS_LPPGDR, POWER_GLITCH_VALUE) # (SNVS_LPSR, PGD_MASK) # ws"
proof (cases "all_clear m")
  case True
  have "run_to_verify m = Inr (at_verify d m)" by (rule run_to_verify_clear [OF assms True])
  then show ?thesis by (simp add: zmk_run_from_verify at_verify_sel)
next
  case False
  from run_to_verify_locked [OF assms False] obtain st where
    "run_to_verify m = Inl (- 1, st)"
    "wlog st = [(SNVS_LPPGDR, POWER_GLITCH_VALUE), (SNVS_LPSR, PGD_MASK)]" by blast
  then show ?thesis by (simp add: zmk_run_stopped)
qed

subsection \<open>The example windows\<close>

lemma win_clear_fields:
  "SSM_state win_clear = 0xD" "all_clear win_clear" "get_SNVS_reg win_clear SNVS_LPZMKRn = 0"
  by (simp_all add: win_clear_def all_clear_def field_defs mask_defs reg_offsets
      get_SNVS_reg_def)

lemma win_old_key_fields:
  "SSM_state win_old_key = 0xD" "all_clear win_old_key"
  "get_SNVS_reg win_old_key SNVS_LPZMKRn = 0xFFFFFFFF"
  by (simp_all add: win_old_key_def all_clear_def field_defs mask_defs reg_offsets
      get_SNVS_reg_def)

lemma win_ssm_c_fields: "SSM_state win_ssm_c = 0xC"
  by (simp add: win_ssm_c_def field_defs mask_defs reg_offsets get_SNVS_reg_def)

lemma win_check_state_fields: "SSM_state win_check_state = 0x9"
  by (simp add: win_check_state_def field_defs mask_defs reg_offsets get_SNVS_reg_def)

lemma win_read_locked_fields:
  "SSM_state win_read_locked = 0xF" "ZMK_RHL_state win_read_locked = 1"
  "get_SNVS_reg win_read_locked SNVS_LPZMKRn = 0x55"
  by (simp_all add: win_read_locked_def field_defs mask_defs reg_offsets get_SNVS_reg_def)

lemma run_to_verify_win_clear:
  "run_to_verify win_clear = Inr (at_verify SSM_Trusted_mode win_clear)"
  by (rule run_to_verify_clear) (simp_all add: win_clear_fields ssm_switch_def)

lemma run_to_verify_win_old_key:
  "run_to_verify win_old_key = Inr (at_verify SSM_Trusted_mode win_old_key)"
  by (rule run_to_verify_clear) (simp_all add: win_old_key_fields ssm_switch_def)

lemma run_to_wait_win_clear:
  "run_to_wait RESET win_clear =
     Inr (lock_key RESET (printf (ZMK_value_matches ZMK_VALUE)
            (at_verify SSM_Trusted_mode win_clear)))"
  by (simp add: run_to_wait_def run_to_verify_win_clear verify_key_cases at_verify_sel
      win_clear_fields)

subsection \<open>Stores only add bits, and the log accounts for the window\<close>

lemma replay_snoc: "replay (ws @ [(a, v)]) m = set_value_of_SNVS_reg (replay ws m) a v"
  by (simp add: replay_def)

lemma replay_Nil: "replay [] m = m"
  by (simp add: replay_def)

lemma set_value_keeps_bits:
  "get_SNVS_reg m b OR get_SNVS_reg (set_value_of_SNVS_reg m a v) b
     = get_SNVS_reg (set_value_of_SNVS_reg m a v) b"
  by (simp add: set_value_of_SNVS_reg_def get_SNVS_reg_def or.assoc [symmetric])

lemma replay_keeps_bits:
  "get_SNVS_reg m b OR get_SNVS_reg (replay ws m) b = get_SNVS_reg (replay ws m) b"
proof (induction ws rule: rev_induct)
  case Nil
  show ?case by (simp add: replay_Nil)
next
  case (snoc w ws)
  obtain a v where w: "w = (a, v)" by (cases w)
  let ?r = "replay ws m"
  have "get_SNVS_reg m b OR get_SNVS_reg (set_value_of_SNVS_reg ?r a v) b
      = get_SNVS_reg m b OR (get_SNVS_reg ?r b OR get_SNVS_reg (set_value_of_SNVS_reg ?r a v) b)"
    by (simp add: set_value_keeps_bits)
  also have "\<dots> = (get_SNVS_reg m b OR get_SNVS_reg ?r b) OR get_SNVS_reg (set_value_of_SNVS_reg ?r a v) b"
    by (simp add: or.assoc)
  also have "\<dots> = get_SNVS_reg (set_value_of_SNVS_reg ?r a v) b"
    by (simp add: snoc.IH set_value_keeps_bits)
  finally show ?case by (simp add: w replay_snoc)
qed

lemma consistent_start: "consistent m (start m)"
  by (simp add: consistent_def replay_Nil)

lemma consistent_store: "consistent m st \<Longrightarrow> consistent m (store a v st)"
  by (simp add: consistent_def replay_snoc set_value_of_SNVS_reg_def get_SNVS_reg_def)

lemma consistent_printf: "consistent m st \<Longrightarrow> consistent m (printf d st)"
  by (simp add: consistent_def)

lemmas consistent_step = consistent_store consistent_printf

lemma consistent_check_SSM: "consistent m st \<Longrightarrow> consistent m (state_of (check_SSM st))"
  by (simp add: check_SSM_def state_of_def consistent_step split: option.split)

lemma consistent_condition_glitch: "consistent m st \<Longrightarrow> consistent m (condition_glitch st)"
  by (simp add: condition_glitch_def consistent_step)

lemma consistent_check_ZMK_HWP: "consistent m st \<Longrightarrow> consistent m (state_of (check_ZMK_HWP st))"
  by (simp add: check_ZMK_HWP_def state_of_def consistent_step)

lemma consistent_check_locks: "consistent m st \<Longrightarrow> consistent m (state_of (check_locks st))"
  by (simp add: check_locks_def state_of_def consistent_step)

lemma consistent_write_key: "consistent m st \<Longrightarrow> consistent m (write_key st)"
  by (simp add: write_key_def consistent_step)

lemma consistent_verify_key: "consistent m st \<Longrightarrow> consistent m (state_of (verify_key st))"
  by (simp add: verify_key_def state_of_def consistent_step)

lemma consistent_lock_key: "consistent m st \<Longrightarrow> consistent m (lock_key reset st)"
  by (simp add: lock_key_def Let_def consistent_step)

lemma consistent_check_zeroized: "consistent m st \<Longrightarrow> consistent m (check_zeroized st)"
  by (simp add: check_zeroized_def consistent_step)

lemma consistent_select_master_key:
  "consistent m st \<Longrightarrow> consistent m (select_master_key reset st)"
  by (simp add: select_master_key_def Let_def consistent_step)

lemma consistent_run_to_verify: "consistent m (state_of (run_to_verify m))"
proof -
  have a: "consistent m (state_of (check_SSM (start m)))"
    by (rule consistent_check_SSM [OF consistent_start])
  show ?thesis
  proof (cases "check_SSM (start m)")
    case (Inl r)
    then show ?thesis using a by (simp add: run_to_verify_def)
  next
    case (Inr st1)
    then have "consistent m st1" using a by simp
    then have b: "consistent m (state_of (check_ZMK_HWP (condition_glitch st1)))"
      by (intro consistent_check_ZMK_HWP consistent_condition_glitch)
    show ?thesis
    proof (cases "check_ZMK_HWP (condition_glitch st1)")
      case (Inl r)
      then show ?thesis using b Inr by (simp add: run_to_verify_def)
    next
      case st2: (Inr st2)
      then have "consistent m st2" using b by simp
      then have c: "consistent m (state_of (check_locks st2))" by (rule consistent_check_locks)
      show ?thesis
      proof (cases "check_locks st2")
        case (Inl r)
        then show ?thesis using c Inr st2 by (simp add: run_to_verify_def)
      next
        case st3: (Inr st3)
        then have "consistent m st3" using c by simp
        then have "consistent m (write_key st3)" by (rule consistent_write_key)
        then show ?thesis using Inr st2 st3 by (simp add: run_to_verify_def)
      qed
    qed
  qed
qed

lemma consistent_zmk_run: "consistent m (snd (zmk_run reset m))"
proof (cases "run_to_verify m")
  case (Inl r)
  then show ?thesis using consistent_run_to_verify [of m]
    by (cases r) (simp add: zmk_run_def run_to_wait_def)
next
  case (Inr st)
  then have st: "consistent m st" using consistent_run_to_verify [of m] by simp
  show ?thesis
  proof (cases "get_SNVS_reg (mem st) SNVS_LPZMKRn = ZMK_VALUE")
    case True
    then show ?thesis
      by (simp add: zmk_run_from_verify [OF Inr] st consistent_select_master_key
          consistent_check_zeroized consistent_lock_key consistent_printf)
  next
    case False
    then show ?thesis
      by (simp add: zmk_run_from_verify [OF Inr] st consistent_printf)
  qed
qed

section \<open>Register stores\<close>

text \<open>
  C8. Every store of the program goes through \<^verbatim>\<open>set_value_of_SNVS_reg\<close>, which puts
  at the offset the old value ORed with the bits given and leaves every other offset
  alone, so no bit that was set is cleared by it. \<open>store\<close> is the only block that
  changes the window and does so by that macro; a console line changes nothing. For the
  whole run: the final window is the initial one with the logged stores replayed in
  order, from each store to the next every register keeps the bits it had, and so every
  bit set before the run is set after it.
\<close>

theorem stores_only_set_bits:
  "set_value_of_SNVS_reg w a v = w(a := get_SNVS_reg w a OR v)
   \<and> get_SNVS_reg w b OR get_SNVS_reg (set_value_of_SNVS_reg w a v) b
       = get_SNVS_reg (set_value_of_SNVS_reg w a v) b
   \<and> mem (store a v st) = set_value_of_SNVS_reg (mem st) a v
   \<and> mem (printf d st) = mem st
   \<and> mem (snd (zmk_run reset m)) = replay (wlog (snd (zmk_run reset m))) m
   \<and> get_SNVS_reg (replay (take k (wlog (snd (zmk_run reset m)))) m) b
       OR get_SNVS_reg (replay (take (Suc k) (wlog (snd (zmk_run reset m)))) m) b
       = get_SNVS_reg (replay (take (Suc k) (wlog (snd (zmk_run reset m)))) m) b
   \<and> get_SNVS_reg m b OR get_SNVS_reg (mem (snd (zmk_run reset m))) b
       = get_SNVS_reg (mem (snd (zmk_run reset m))) b"
proof -
  let ?ws = "wlog (snd (zmk_run reset m))"
  have run: "mem (snd (zmk_run reset m)) = replay ?ws m"
    using consistent_zmk_run [of m reset] by (simp add: consistent_def)
  have step: "get_SNVS_reg (replay (take k ?ws) m) b
        OR get_SNVS_reg (replay (take (Suc k) ?ws) m) b
      = get_SNVS_reg (replay (take (Suc k) ?ws) m) b"
  proof (cases "k < length ?ws")
    case True
    obtain a' v' where "?ws ! k = (a', v')" by (cases "?ws ! k")
    then have "replay (take (Suc k) ?ws) m = set_value_of_SNVS_reg (replay (take k ?ws) m) a' v'"
      using True by (simp add: take_Suc_conv_app_nth replay_snoc)
    then show ?thesis by (simp add: set_value_keeps_bits)
  next
    case False
    then show ?thesis by simp
  qed
  show ?thesis
    using run step replay_keeps_bits [of m b ?ws] set_value_keeps_bits [of w b a v]
    by (simp add: set_value_of_SNVS_reg_def store_def)
qed

section \<open>The security state check\<close>

text \<open>
  C2, as stated, fails. At \<open>win_ssm_c\<close> the field reads 0xC, which is at or above the
  threshold 0xB, yet the \<^verbatim>\<open>switch\<close> takes its default case (lines 196 to 198): the
  run returns -1 having printed the undefined-mode line and stored nothing, so it never
  reaches the glitch detector.
\<close>

theorem security_state_gate_counterexample:
  "0xB \<le> SSM_state win_ssm_c
   \<and> check_SSM (start win_ssm_c) = Inl (- 1, printf SSM_undefined_mode (start win_ssm_c))
   \<and> fst (main win_ssm_c) = - 1
   \<and> out (snd (main win_ssm_c)) = [SSM_undefined_mode]
   \<and> wlog (snd (main win_ssm_c)) = []"
proof -
  have none: "ssm_switch (SSM_state win_ssm_c) = None"
    by (simp add: win_ssm_c_fields ssm_switch_def)
  show ?thesis
    using zmk_run_rejected [OF none, of RESET] check_SSM_reject [of "start win_ssm_c"] none
    by (simp add: main_def win_ssm_c_fields)
qed

text \<open>
  C2, amended. If the field is 0xB, 0xD or 0xF, the check prints the non-secure, trusted
  or secure line respectively and hands the run on, and the first two stores of the run
  are those of the glitch detector and the glitch record. For every other value the run
  returns -1 at once with no store and the window unchanged; these values are the ones
  below 0xB (line 336) and, at or above it, 0xC and 0xE (line 197).
\<close>

theorem security_state_gate:
  "(SSM_state m \<in> {0xB, 0xD, 0xF} \<longrightarrow>
      check_SSM (start m) =
        Inr (printf (if SSM_state m = 0xB then SSM_NonSecure_mode
                     else if SSM_state m = 0xD then SSM_Trusted_mode
                     else SSM_Secure_mode) (start m))
      \<and> (\<exists>ws. wlog (snd (zmk_run reset m)) =
             (SNVS_LPPGDR, POWER_GLITCH_VALUE) # (SNVS_LPSR, PGD_MASK) # ws))
   \<and> (SSM_state m \<notin> {0xB, 0xD, 0xF} \<longrightarrow>
      (SSM_state m < 0xB \<or> SSM_state m = 0xC \<or> SSM_state m = 0xE)
      \<and> zmk_run reset m =
          (- 1, printf (if 0xB \<le> SSM_state m then SSM_undefined_mode
                        else SSM_not_functional) (start m))
      \<and> fst (zmk_run reset m) = - 1
      \<and> wlog (snd (zmk_run reset m)) = []
      \<and> mem (snd (zmk_run reset m)) = m)"
proof (intro conjI impI)
  assume valid: "SSM_state m \<in> {0xB, 0xD, 0xF}"
  let ?d = "if SSM_state m = 0xB then SSM_NonSecure_mode
            else if SSM_state m = 0xD then SSM_Trusted_mode else SSM_Secure_mode"
  have d: "ssm_switch (SSM_state m) = Some ?d" by (rule ssm_switch_eq [OF valid])
  show "check_SSM (start m) = Inr (printf ?d (start m))"
    by (rule check_SSM_accept) (simp add: d)
  show "\<exists>ws. wlog (snd (zmk_run reset m)) =
          (SNVS_LPPGDR, POWER_GLITCH_VALUE) # (SNVS_LPSR, PGD_MASK) # ws"
    by (rule zmk_run_accepted_wlog [OF d])
next
  assume invalid: "SSM_state m \<notin> {0xB, 0xD, 0xF}"
  then have none: "ssm_switch (SSM_state m) = None" by (rule ssm_switch_invalid)
  have run: "zmk_run reset m =
      (- 1, printf (if 0xB \<le> SSM_state m then SSM_undefined_mode
                    else SSM_not_functional) (start m))"
    by (rule zmk_run_rejected [OF none])
  show "zmk_run reset m =
      (- 1, printf (if 0xB \<le> SSM_state m then SSM_undefined_mode
                    else SSM_not_functional) (start m))" by (rule run)
  show "fst (zmk_run reset m) = - 1" by (simp add: run)
  show "wlog (snd (zmk_run reset m)) = []" by (simp add: run)
  show "mem (snd (zmk_run reset m)) = m" by (simp add: run)
  show "SSM_state m < 0xB \<or> SSM_state m = 0xC \<or> SSM_state m = 0xE"
  proof -
    have "unat (SSM_state m) \<le> 15"
      using SSM_state_le [of m] by (simp add: word_le_nat_alt)
    moreover have "SSM_state m \<noteq> 11" "SSM_state m \<noteq> 13" "SSM_state m \<noteq> 15"
      using invalid by simp_all
    then have "unat (SSM_state m) \<noteq> 11" "unat (SSM_state m) \<noteq> 13"
      "unat (SSM_state m) \<noteq> 15"
      by (simp_all add: word_unat_eq_iff)
    ultimately have
      "unat (SSM_state m) < 11 \<or> unat (SSM_state m) = 12 \<or> unat (SSM_state m) = 14"
      by arith
    then show ?thesis by (simp add: word_less_nat_alt word_unat_eq_iff)
  qed
qed

text \<open>
  The amended C2 at three windows: trusted mode (0xD) is let through; 0xC and the check
  state 0x9 are both turned away without a store.
\<close>

theorem security_state_gate_witness:
  "SSM_state win_clear \<in> {0xB, 0xD, 0xF}
   \<and> check_SSM (start win_clear) = Inr (printf SSM_Trusted_mode (start win_clear))
   \<and> (\<exists>ws. wlog (snd (main win_clear)) =
         (SNVS_LPPGDR, POWER_GLITCH_VALUE) # (SNVS_LPSR, PGD_MASK) # ws)
   \<and> SSM_state win_ssm_c \<notin> {0xB, 0xD, 0xF}
   \<and> main win_ssm_c = (- 1, printf SSM_undefined_mode (start win_ssm_c))
   \<and> SSM_state win_check_state \<notin> {0xB, 0xD, 0xF}
   \<and> main win_check_state = (- 1, printf SSM_not_functional (start win_check_state))"
proof -
  have a: "SSM_state win_clear = 0xD" by (rule win_clear_fields)
  have b: "SSM_state win_ssm_c = 0xC" by (rule win_ssm_c_fields)
  have c: "SSM_state win_check_state = 0x9" by (rule win_check_state_fields)
  show ?thesis
    using security_state_gate [of win_clear RESET] security_state_gate [of win_ssm_c RESET]
      security_state_gate [of win_check_state RESET]
    by (simp add: main_def a b c)
qed

text \<open>
  C5. If the security state field is below the threshold 0xB, main takes the else branch
  of line 335: it returns -1 (a non-zero exit status), the only decision line printed is
  the one of line 336, no store is made, and the window is what it was before the run, so
  the glitch detector, glitch status, lock, key control, key and selector registers all
  keep their values.
\<close>

theorem below_threshold_no_write:
  assumes "SSM_state m < 0xB"
  shows "fst (zmk_run reset m) = - 1 \<and> fst (zmk_run reset m) \<noteq> 0
       \<and> out (snd (zmk_run reset m)) = [SSM_not_functional]
       \<and> wlog (snd (zmk_run reset m)) = []
       \<and> mem (snd (zmk_run reset m)) = m"
proof -
  have "zmk_run reset m = (- 1, printf SSM_not_functional (start m))"
    using assms by (simp add: zmk_run_def run_to_wait_def run_to_verify_def check_SSM_below)
  then show ?thesis by simp
qed

text \<open>C5 at a window in the check state 0x9 that holds a key.\<close>

theorem below_threshold_no_write_witness:
  "SSM_state win_check_state < 0xB
   \<and> fst (main win_check_state) = - 1 \<and> fst (main win_check_state) \<noteq> 0
   \<and> out (snd (main win_check_state)) = [SSM_not_functional]
   \<and> wlog (snd (main win_check_state)) = []
   \<and> mem (snd (main win_check_state)) = win_check_state"
proof -
  have below: "SSM_state win_check_state < 0xB"
    by (simp add: win_check_state_fields)
  show ?thesis
    using below below_threshold_no_write [OF below, of RESET] by (simp add: main_def)
qed

section \<open>The lock checks\<close>

text \<open>
  C6. Let the security state be one of the three modes, and let the hardware programming
  mode bit or at least one of the six lock fields read non-zero. Then main returns -1 (a
  non-zero exit status) from line 332, 326 or 320, the last line printed being the
  matching error; the only stores of the run are the two of A.2 and A.3, none of them to
  the key register, and the key register holds its value from before the run.
\<close>

theorem locked_out:
  assumes "SSM_state m \<in> {0xB, 0xD, 0xF}"
    and "ZMK_HWP_state m \<noteq> 0 \<or> ZMK_WSL_state m \<noteq> 0 \<or> ZMK_RSL_state m \<noteq> 0
         \<or> MKS_SL_state m \<noteq> 0 \<or> ZMK_WHL_state m \<noteq> 0 \<or> ZMK_RHL_state m \<noteq> 0
         \<or> MKS_HL_state m \<noteq> 0"
  shows "fst (zmk_run reset m) = - 1 \<and> fst (zmk_run reset m) \<noteq> 0
       \<and> last (out (snd (zmk_run reset m)))
           \<in> {ZMK_HWP_is_set, Soft_lock_is_set, Hard_lock_is_set}
       \<and> wlog (snd (zmk_run reset m)) =
           [(SNVS_LPPGDR, POWER_GLITCH_VALUE), (SNVS_LPSR, PGD_MASK)]
       \<and> SNVS_LPZMKRn \<notin> fst ` set (wlog (snd (zmk_run reset m)))
       \<and> get_SNVS_reg (mem (snd (zmk_run reset m))) SNVS_LPZMKRn
           = get_SNVS_reg m SNVS_LPZMKRn"
proof -
  from assms(1) obtain d where d: "ssm_switch (SSM_state m) = Some d"
    using ssm_switch_iff [of "SSM_state m"] by auto
  from assms(2) have "\<not> all_clear m" by (auto simp: all_clear_def)
  from run_to_verify_locked [OF d this] obtain st where
    st: "run_to_verify m = Inl (- 1, st)"
      "last (out st) \<in> {ZMK_HWP_is_set, Soft_lock_is_set, Hard_lock_is_set}"
      "wlog st = [(SNVS_LPPGDR, POWER_GLITCH_VALUE), (SNVS_LPSR, PGD_MASK)]"
      "get_SNVS_reg (mem st) SNVS_LPZMKRn = get_SNVS_reg m SNVS_LPZMKRn"
    by blast
  have "zmk_run reset m = (- 1, st)" by (rule zmk_run_stopped [OF st(1)])
  with st(2-4) show ?thesis by (simp add: reg_offsets)
qed

text \<open>C6 at a window in secure mode with the read hard lock set and 0x55 in the key register.\<close>

theorem locked_out_witness:
  "SSM_state win_read_locked \<in> {0xB, 0xD, 0xF}
   \<and> ZMK_RHL_state win_read_locked \<noteq> 0
   \<and> fst (main win_read_locked) = - 1
   \<and> last (out (snd (main win_read_locked)))
       \<in> {ZMK_HWP_is_set, Soft_lock_is_set, Hard_lock_is_set}
   \<and> wlog (snd (main win_read_locked)) =
       [(SNVS_LPPGDR, POWER_GLITCH_VALUE), (SNVS_LPSR, PGD_MASK)]
   \<and> get_SNVS_reg (mem (snd (main win_read_locked))) SNVS_LPZMKRn = 0x55"
proof -
  have valid: "SSM_state win_read_locked \<in> {0xB, 0xD, 0xF}"
    by (simp add: win_read_locked_fields)
  have rhl: "ZMK_RHL_state win_read_locked \<noteq> 0"
    by (simp add: win_read_locked_fields)
  have key: "get_SNVS_reg win_read_locked SNVS_LPZMKRn = 0x55"
    by (rule win_read_locked_fields)
  show ?thesis
    using valid rhl key locked_out [of win_read_locked RESET] by (simp add: main_def)
qed

section \<open>Writing the key and reading it back\<close>

text \<open>
  C3, as stated, fails. \<open>win_old_key\<close> is in trusted mode with nothing locked and holds
  0xFFFFFFFF in the key register. The run reaches the read-back of line 253, and there,
  right after the store of 0x11223344, the key register reads 0xFFFFFFFF: the store ORs
  the new bits into the old ones.
\<close>

theorem key_read_back_counterexample:
  "SSM_state win_old_key = 0xD \<and> all_clear win_old_key
   \<and> run_to_verify win_old_key = Inr (at_verify SSM_Trusted_mode win_old_key)
   \<and> get_SNVS_reg (mem (at_verify SSM_Trusted_mode win_old_key)) SNVS_LPZMKRn = 0xFFFFFFFF
   \<and> get_SNVS_reg (mem (at_verify SSM_Trusted_mode win_old_key)) SNVS_LPZMKRn \<noteq> 0x11223344"
  by (simp add: run_to_verify_win_old_key at_verify_sel win_old_key_fields ZMK_VALUE_def)

text \<open>
  C3, amended. With the security state one of the three modes and nothing locked, the run
  reaches the read-back, and the value read there is the key register's value from before
  the run ORed with 0x11223344. It equals 0x11223344 exactly when the old value has no bit
  set outside 0x11223344.
\<close>

theorem key_read_back:
  assumes "SSM_state m \<in> {0xB, 0xD, 0xF}" and "all_clear m"
  shows "\<exists>st. run_to_verify m = Inr st
          \<and> get_SNVS_reg (mem st) SNVS_LPZMKRn = get_SNVS_reg m SNVS_LPZMKRn OR ZMK_VALUE
          \<and> (get_SNVS_reg (mem st) SNVS_LPZMKRn = ZMK_VALUE
               \<longleftrightarrow> get_SNVS_reg m SNVS_LPZMKRn AND NOT ZMK_VALUE = 0)"
proof -
  from assms(1) obtain d where d: "ssm_switch (SSM_state m) = Some d"
    using ssm_switch_iff [of "SSM_state m"] by auto
  have "run_to_verify m = Inr (at_verify d m)" by (rule run_to_verify_clear [OF d assms(2)])
  then show ?thesis by (simp add: at_verify_sel or_absorb_iff)
qed

text \<open>The amended C3 at a window whose key register is empty: the read-back is 0x11223344.\<close>

theorem key_read_back_witness:
  "SSM_state win_clear \<in> {0xB, 0xD, 0xF} \<and> all_clear win_clear
   \<and> (\<exists>st. run_to_verify win_clear = Inr st
          \<and> get_SNVS_reg (mem st) SNVS_LPZMKRn = 0x11223344)"
  using key_read_back [of win_clear]
  by (simp add: win_clear_fields ZMK_VALUE_def)

text \<open>
  C1 does not hold of the code. At \<open>win_old_key\<close> the read-back differs from the key
  (line 314 prints the mismatch with the value read, 0xFFFFFFFF), and main returns 0: the
  else branch of line 313 has no \<^verbatim>\<open>return - 1\<close>, unlike the four other error branches.
\<close>

theorem mismatch_returns_zero:
  "fst (main win_old_key) = 0
   \<and> out (snd (main win_old_key)) =
       [SSM_Trusted_mode, ZMK_HWP_not_set, Soft_locks_not_set, Hard_locks_not_set,
        ZMK_value_not_matching 0xFFFFFFFF]"
  by (simp add: main_def zmk_run_from_verify [OF run_to_verify_win_old_key]
      at_verify_sel win_old_key_fields ZMK_VALUE_def)

text \<open>
  C7. Let the run reach the read-back of line 253 in state \<open>st\<close>, and let the key register
  there differ from the key. Then the run ends in \<open>st\<close> with the mismatch line added and
  nothing else: the window and the store log are those of the moment of the read-back.
  The log is the two stores of A.2 and A.3 and the key store, which is the last one; the
  HP lock, LP lock, HP command and master key control registers are never stored to and
  hold their values from before the run.
\<close>

theorem mismatch_stops_all_writes:
  assumes "run_to_verify m = Inr st"
    and "get_SNVS_reg (mem st) SNVS_LPZMKRn \<noteq> ZMK_VALUE"
  shows "zmk_run reset m =
           (0, printf (ZMK_value_not_matching (get_SNVS_reg (mem st) SNVS_LPZMKRn)) st)
       \<and> mem (snd (zmk_run reset m)) = mem st
       \<and> wlog (snd (zmk_run reset m)) = wlog st
       \<and> wlog (snd (zmk_run reset m)) =
           [(SNVS_LPPGDR, POWER_GLITCH_VALUE), (SNVS_LPSR, PGD_MASK), (SNVS_LPZMKRn, ZMK_VALUE)]
       \<and> get_SNVS_reg (mem (snd (zmk_run reset m))) SNVS_HPLR = get_SNVS_reg m SNVS_HPLR
       \<and> get_SNVS_reg (mem (snd (zmk_run reset m))) SNVS_LPLR = get_SNVS_reg m SNVS_LPLR
       \<and> get_SNVS_reg (mem (snd (zmk_run reset m))) SNVS_HPCOMR = get_SNVS_reg m SNVS_HPCOMR
       \<and> get_SNVS_reg (mem (snd (zmk_run reset m))) SNVS_LPMKCR = get_SNVS_reg m SNVS_LPMKCR"
proof -
  from run_to_verify_Inr [OF assms(1)] obtain d where st: "st = at_verify d m" by blast
  have "zmk_run reset m =
      (0, printf (ZMK_value_not_matching (get_SNVS_reg (mem st) SNVS_LPZMKRn)) st)"
    using assms(2) by (simp add: zmk_run_from_verify [OF assms(1)])
  then show ?thesis by (simp add: st at_verify_sel)
qed

text \<open>C7 at the window that holds an old key.\<close>

theorem mismatch_stops_all_writes_witness:
  "run_to_verify win_old_key = Inr (at_verify SSM_Trusted_mode win_old_key)
   \<and> get_SNVS_reg (mem (at_verify SSM_Trusted_mode win_old_key)) SNVS_LPZMKRn \<noteq> ZMK_VALUE
   \<and> main win_old_key =
       (0, printf (ZMK_value_not_matching 0xFFFFFFFF) (at_verify SSM_Trusted_mode win_old_key))
   \<and> wlog (snd (main win_old_key)) =
       [(SNVS_LPPGDR, POWER_GLITCH_VALUE), (SNVS_LPSR, PGD_MASK), (SNVS_LPZMKRn, ZMK_VALUE)]"
proof -
  have key: "get_SNVS_reg (mem (at_verify SSM_Trusted_mode win_old_key)) SNVS_LPZMKRn
      = 0xFFFFFFFF"
    by (simp add: at_verify_sel win_old_key_fields ZMK_VALUE_def)
  then have ne: "get_SNVS_reg (mem (at_verify SSM_Trusted_mode win_old_key)) SNVS_LPZMKRn
      \<noteq> ZMK_VALUE"
    by (simp add: ZMK_VALUE_def)
  show ?thesis
    using mismatch_stops_all_writes [OF run_to_verify_win_old_key ne, of RESET] key ne
    by (simp add: main_def run_to_verify_win_old_key at_verify_sel)
qed

section \<open>After a verified key\<close>


text \<open>
  C9. Let the run pass the read-back and reach the wait of line 281 in state \<open>st\<close>, and
  let the key register read non-zero when the wait is over. Then main returns 0; the one
  line printed after the wait is the failed zeroize check of line 290 with the value
  read; and the stores made after the wait are, in order, the selection code
  \<^verbatim>\<open>MASTER_KEY_SEL_VALUE\<close> (0b10) into the master key control register, the enable bit
  into the HP command register, and the selector lock (hard under \<^verbatim>\<open>POR\<close>, soft
  otherwise). In the final window the selection bit and the enable bit are set.
\<close>

theorem zeroize_failure_is_advisory:
  assumes "run_to_wait reset m = Inr st"
    and "get_SNVS_reg (mem (snd (snd (busy_wait 0 0 st)))) SNVS_LPZMKRn \<noteq> 0"
  shows "fst (zmk_run reset m) = 0
       \<and> out (snd (zmk_run reset m)) =
           out st @ [Zeroize_FAILED
                      (get_SNVS_reg (mem (snd (snd (busy_wait 0 0 st)))) SNVS_LPZMKRn)]
       \<and> wlog (snd (zmk_run reset m)) = wlog st @
           [(SNVS_LPMKCR, MASTER_KEY_SEL_VALUE), (SNVS_HPCOMR, MKS_EN_MASK),
            if reset = POR then (SNVS_LPLR, MKS_HL_MASK) else (SNVS_HPLR, MKS_SL_MASK)]
       \<and> get_SNVS_reg (mem (snd (zmk_run reset m))) SNVS_LPMKCR AND MASTER_KEY_SEL_VALUE
           = MASTER_KEY_SEL_VALUE
       \<and> get_SNVS_reg (mem (snd (zmk_run reset m))) SNVS_HPCOMR AND MKS_EN_MASK = MKS_EN_MASK"
  using assms by (simp add: zmk_run_def busy_wait_state select_master_key_mem or_and_same)

text \<open>
  C9 at \<open>win_clear\<close>: the store keeps the key, so the check after the wait reads
  0x11223344, and the run still selects the master key and returns 0.
\<close>

theorem zeroize_failure_is_advisory_witness:
  "run_to_wait RESET win_clear =
     Inr (lock_key RESET (printf (ZMK_value_matches ZMK_VALUE)
            (at_verify SSM_Trusted_mode win_clear)))
   \<and> get_SNVS_reg (mem (snd (snd (busy_wait 0 0
        (lock_key RESET (printf (ZMK_value_matches ZMK_VALUE)
           (at_verify SSM_Trusted_mode win_clear))))))) SNVS_LPZMKRn \<noteq> 0
   \<and> fst (main win_clear) = 0
   \<and> out (snd (main win_clear)) =
       [SSM_Trusted_mode, ZMK_HWP_not_set, Soft_locks_not_set, Hard_locks_not_set,
        ZMK_value_matches 0x11223344, Zeroize_FAILED 0x11223344]
   \<and> wlog (snd (main win_clear)) =
       [(SNVS_LPPGDR, POWER_GLITCH_VALUE), (SNVS_LPSR, PGD_MASK), (SNVS_LPZMKRn, ZMK_VALUE),
        (SNVS_LPMKCR, ZMK_VAL_MASK), (SNVS_LPMKCR, ZMK_ECC_EN),
        (SNVS_LPLR, ZMK_RHL_MASK), (SNVS_LPLR, ZMK_WHL_MASK),
        (SNVS_LPMKCR, MASTER_KEY_SEL_VALUE), (SNVS_HPCOMR, MKS_EN_MASK),
        (SNVS_LPLR, MKS_HL_MASK)]"
proof -
  let ?st = "lock_key RESET (printf (ZMK_value_matches ZMK_VALUE)
               (at_verify SSM_Trusted_mode win_clear))"
  have key: "get_SNVS_reg (mem (snd (snd (busy_wait 0 0 ?st)))) SNVS_LPZMKRn = 0x11223344"
    by (simp add: busy_wait_state at_verify_sel win_clear_fields ZMK_VALUE_def)
  then have nz: "get_SNVS_reg (mem (snd (snd (busy_wait 0 0 ?st)))) SNVS_LPZMKRn \<noteq> 0"
    by simp
  have policy: "RESET = POR" by (simp add: RESET_def)
  have run: "run_to_wait RESET win_clear = Inr ?st" by (rule run_to_wait_win_clear)
  show ?thesis
    using zeroize_failure_is_advisory [OF run nz] key run
    by (simp add: main_def at_verify_sel policy ZMK_VALUE_def)
qed

end
